theory Spec2Isabelle
  imports Main
begin

section \<open>The account store of \<open>user-manager.js\<close>\<close>

text \<open>
  The class \<open>UserManager\<close> keeps one JSON array of user objects under the key
  \<open>users\<close> of the browser's local storage. Every method reads the whole array
  (\<open>getUsers\<close>), works on the copy and writes the whole array back (\<open>saveUsers\<close>).
  The embedding passes the stored array explicitly: a method takes the stored list and
  returns its result (or the error it throws) together with the list stored afterwards.

  Conventions of the embedding:
  \<^item> identifiers are integer-valued finite JavaScript numbers, that is, doubles. They
    are modelled as \<open>int\<close>; a sum is rounded to the nearest double (\<open>roundDouble\<close>),
    and \<open>parseInt\<close> of a number goes through the number's decimal string;
  \<^item> strings are lists of 8-bit code units, the Latin-1 range of JavaScript's UTF-16
    strings; case mapping and white space are those of that range;
  \<^item> a timestamp (\<open>new Date().toISOString()\<close>) is the clock reading in milliseconds,
    a \<open>nat\<close>, handed to the method that reads the clock;
  \<^item> local storage accepts every write, and \<open>JSON.parse (JSON.stringify x)\<close> gives
    back \<open>x\<close> for the arrays of records stored here.
\<close>

subsection \<open>Strings\<close>

text \<open>
  The capital letters of the range: \<open>A\<close> to \<open>Z\<close>, and the accented capitals
  \<open>0xC0\<close> to \<open>0xDE\<close> without the multiplication sign \<open>0xD7\<close>. The small
  letter of each is 32 code units above it.
\<close>

definition isUpperChar :: "char \<Rightarrow> bool" where
  "isUpperChar c =
     ((65 \<le> (of_char c :: nat) \<and> (of_char c :: nat) \<le> 90) \<or>
      (192 \<le> (of_char c :: nat) \<and> (of_char c :: nat) \<le> 222 \<and>
       (of_char c :: nat) \<noteq> 215))"

text \<open>\<open>String.prototype.toLowerCase\<close>, code unit by code unit.\<close>

definition toLowerChar :: "char \<Rightarrow> char" where
  "toLowerChar c = (if isUpperChar c then char_of ((of_char c :: nat) + 32) else c)"

definition toLowerCase :: "string \<Rightarrow> string" where
  "toLowerCase s = map toLowerChar s"

subsection \<open>Records, errors and the stored collection\<close>

type_synonym timestamp = nat

record user =
  uid :: int
  firstName :: string
  lastName :: string
  email :: string
  phone :: string
  password :: string
  createdAt :: timestamp
  lastLogin :: "timestamp option"
  isActive :: bool

text \<open>The argument of \<open>addUser\<close> and of \<open>validateUserData\<close>: the fields of a form.\<close>

record user_data =
  ud_firstName :: string
  ud_lastName :: string
  ud_email :: string
  ud_phone :: string
  ud_password :: string

text \<open>
  The argument of \<open>updateUser\<close>: an object holding any subset of the fields of a user.
  \<open>None\<close> is a field the object does not have.
\<close>

record user_update =
  upd_id :: "int option"
  upd_firstName :: "string option"
  upd_lastName :: "string option"
  upd_email :: "string option"
  upd_phone :: "string option"
  upd_password :: "string option"
  upd_createdAt :: "timestamp option"
  upd_lastLogin :: "timestamp option option"
  upd_isActive :: "bool option"

text \<open>
  Every failure is a thrown \<open>Error\<close>; the constructors stand for its message:
  \<open>'User with this email already exists'\<close>, \<open>'User not found'\<close>,
  \<open>'User account is disabled'\<close>, \<open>'Invalid password'\<close>, and for \<open>importUsers\<close>
  \<open>'Failed to import users: '\<close> followed by \<open>'Invalid data format'\<close> or by the message
  of the exception of \<open>JSON.parse\<close> or of a property read on \<open>null\<close>.
\<close>

datatype error =
    DuplicateEmail
  | NotFound
  | AccountDisabled
  | InvalidCredentials
  | InvalidFormat
  | ImportException

type_synonym 'a outcome = "(error + 'a) \<times> user list"

subsection \<open>Numbers\<close>

text \<open>
  The nearest double of an integer, ties to the even significand. Integers up to
  \<open>2 ^ 53\<close> in magnitude are doubles; above, a double keeps the 53 leading bits.
\<close>

fun bitLength :: "nat \<Rightarrow> nat" where
  "bitLength n = (if n = 0 then 0 else Suc (bitLength (n div 2)))"

declare bitLength.simps [simp del]

definition roundToEven :: "nat \<Rightarrow> nat \<Rightarrow> nat" where
  "roundToEven a e =
     (let q = a div 2 ^ e;
          r = a mod 2 ^ e;
          h = 2 ^ (e - 1)
      in (if h < r \<or> (r = h \<and> odd q) then q + 1 else q) * 2 ^ e)"

definition roundDouble :: "int \<Rightarrow> int" where
  "roundDouble x =
     (if \<bar>x\<bar> \<le> 2 ^ 53 then x
      else sgn x * int (roundToEven (nat \<bar>x\<bar>) (bitLength (nat \<bar>x\<bar>) - 53)))"

text \<open>
  \<open>parseInt\<close> of a number converts it to a string first. Below \<open>10 ^ 21\<close> the string
  is the decimal numeral of a number that reads back as the same double. From
  \<open>10 ^ 21\<close> on it is in exponent notation, \<open>1e+21\<close> or \<open>1.5e+21\<close>, and
  \<open>parseInt\<close> reads the one digit before the point or the \<open>e\<close>. The string holds the
  shortest decimal that reads back as the number: the next decimal of one digit above
  it (\<open>nextRound\<close>) when that one rounds to the number, and otherwise a decimal with
  the leading digit of the number itself.
\<close>

fun leadingDigit :: "nat \<Rightarrow> nat" where
  "leadingDigit n = (if n < 10 then n else leadingDigit (n div 10))"

fun nextRound :: "nat \<Rightarrow> nat" where
  "nextRound n = (if n < 10 then n + 1 else 10 * nextRound (n div 10))"

declare leadingDigit.simps [simp del] nextRound.simps [simp del]

definition exponentLead :: "nat \<Rightarrow> nat" where
  "exponentLead a =
     (if roundDouble (int (nextRound a)) = int a
      then leadingDigit (nextRound a)
      else leadingDigit a)"

definition parseInt :: "int \<Rightarrow> int" where
  "parseInt x =
     (if \<bar>x\<bar> < 10 ^ 21 then x else sgn x * int (exponentLead (nat \<bar>x\<bar>)))"

subsection \<open>Lookups\<close>

definition getUserByEmail :: "user list \<Rightarrow> string \<Rightarrow> user option" where
  "getUserByEmail users e =
     find (\<lambda>u. toLowerCase (email u) = toLowerCase e) users"

definition getUserById :: "user list \<Rightarrow> int \<Rightarrow> user option" where
  "getUserById users i = find (\<lambda>u. uid u = parseInt i) users"

text \<open>\<open>Array.prototype.findIndex\<close>; \<open>None\<close> is its \<open>-1\<close>.\<close>

fun findIndex :: "('a \<Rightarrow> bool) \<Rightarrow> 'a list \<Rightarrow> nat option" where
  "findIndex P [] = None"
| "findIndex P (x # xs) = (if P x then Some 0 else map_option Suc (findIndex P xs))"

text \<open>
  \<open>Math.max\<close> of a non-empty argument list. \<open>generateUserId\<close> calls it under its
  length test only, so the value at the empty list is never used.
\<close>

fun mathMax :: "int list \<Rightarrow> int" where
  "mathMax [] = 0"
| "mathMax (x # xs) = fold max xs x"

definition generateUserId :: "user list \<Rightarrow> int" where
  "generateUserId users =
     (if length users > 0 then roundDouble (mathMax (map uid users) + 1) else 1)"

subsection \<open>Creating, updating and deleting\<close>

definition addUser :: "timestamp \<Rightarrow> user list \<Rightarrow> user_data \<Rightarrow> user outcome" where
  "addUser now users userData =
     (case getUserByEmail users (ud_email userData) of
        Some _ \<Rightarrow> (Inl DuplicateEmail, users)
      | None \<Rightarrow>
          (let newUser = \<lparr> uid = generateUserId users,
                           firstName = ud_firstName userData,
                           lastName = ud_lastName userData,
                           email = toLowerCase (ud_email userData),
                           phone = ud_phone userData,
                           password = ud_password userData,
                           createdAt = now,
                           lastLogin = None,
                           isActive = True \<rparr>
           in (Inr newUser, users @ [newUser])))"

text \<open>The object spread \<open>{ ...user, ...updateData }\<close>.\<close>

definition spread :: "user \<Rightarrow> user_update \<Rightarrow> user" where
  "spread u d =
     \<lparr> uid = (case upd_id d of Some v \<Rightarrow> v | None \<Rightarrow> uid u),
       firstName = (case upd_firstName d of Some v \<Rightarrow> v | None \<Rightarrow> firstName u),
       lastName = (case upd_lastName d of Some v \<Rightarrow> v | None \<Rightarrow> lastName u),
       email = (case upd_email d of Some v \<Rightarrow> v | None \<Rightarrow> email u),
       phone = (case upd_phone d of Some v \<Rightarrow> v | None \<Rightarrow> phone u),
       password = (case upd_password d of Some v \<Rightarrow> v | None \<Rightarrow> password u),
       createdAt = (case upd_createdAt d of Some v \<Rightarrow> v | None \<Rightarrow> createdAt u),
       lastLogin = (case upd_lastLogin d of Some v \<Rightarrow> v | None \<Rightarrow> lastLogin u),
       isActive = (case upd_isActive d of Some v \<Rightarrow> v | None \<Rightarrow> isActive u) \<rparr>"

definition updateUser :: "user list \<Rightarrow> int \<Rightarrow> user_update \<Rightarrow> user outcome" where
  "updateUser users userId updateData =
     (case findIndex (\<lambda>u. uid u = parseInt userId) users of
        None \<Rightarrow> (Inl NotFound, users)
      | Some userIndex \<Rightarrow>
          (let users' = users[userIndex := spread (users ! userIndex) updateData]
           in (Inr (users' ! userIndex), users')))"

definition deleteUser :: "user list \<Rightarrow> int \<Rightarrow> bool outcome" where
  "deleteUser users userId =
     (let updatedUsers = filter (\<lambda>u. uid u \<noteq> parseInt userId) users
      in if length users = length updatedUsers
         then (Inl NotFound, users)
         else (Inr True, updatedUsers))"

subsection \<open>Authentication\<close>

definition noUpdate :: user_update where
  "noUpdate = \<lparr> upd_id = None, upd_firstName = None, upd_lastName = None,
                upd_email = None, upd_phone = None, upd_password = None,
                upd_createdAt = None, upd_lastLogin = None, upd_isActive = None \<rparr>"

text \<open>
  \<open>authenticateUser\<close> keeps the object \<open>getUserByEmail\<close> gave it and returns that
  object; the write of \<open>lastLogin\<close> goes through \<open>updateUser\<close>, which reads the
  collection again and looks the record up by its id.
\<close>

definition authenticateUser ::
    "timestamp \<Rightarrow> user list \<Rightarrow> string \<Rightarrow> string \<Rightarrow> user outcome" where
  "authenticateUser now users e pw =
     (case getUserByEmail users e of
        None \<Rightarrow> (Inl NotFound, users)
      | Some user \<Rightarrow>
          if \<not> isActive user then (Inl AccountDisabled, users)
          else if password user \<noteq> pw then (Inl InvalidCredentials, users)
          else (case updateUser users (uid user) (noUpdate\<lparr>upd_lastLogin := Some (Some now)\<rparr>) of
                  (Inl err, users') \<Rightarrow> (Inl err, users')
                | (Inr _, users') \<Rightarrow> (Inr user, users')))"

subsection \<open>Export and import\<close>

record metadata =
  exportDate :: timestamp
  totalUsers :: nat
  version :: string

record export_data =
  ex_users :: "user list"
  ex_metadata :: metadata

text \<open>
  A JSON text, identified with what \<open>JSON.parse\<close> makes of it: a text that does not
  parse, \<open>null\<close>, an object whose \<open>users\<close> property is an array, a bare array, or
  any other value (for which \<open>data.users || data\<close> is not an array).
\<close>

datatype json =
    JMalformed
  | JNull
  | JExport export_data
  | JArray "user list"
  | JOther

definition exportUsers :: "timestamp \<Rightarrow> user list \<Rightarrow> json" where
  "exportUsers now users =
     JExport \<lparr> ex_users = users,
               ex_metadata = \<lparr> exportDate = now,
                               totalUsers = length users,
                               version = ''1.0'' \<rparr> \<rparr>"

text \<open>
  The first lines of \<open>importUsers\<close>: \<open>JSON.parse\<close>, \<open>data.users || data\<close> and the
  \<open>Array.isArray\<close> test. The \<open>catch\<close> clause rethrows whatever was thrown.
\<close>

definition importedUsersOf :: "json \<Rightarrow> error + user list" where
  "importedUsersOf jsonData =
     (case jsonData of
        JMalformed \<Rightarrow> Inl ImportException
      | JNull \<Rightarrow> Inl ImportException
      | JExport data \<Rightarrow> Inr (ex_users data)
      | JArray importedUsers \<Rightarrow> Inr importedUsers
      | JOther \<Rightarrow> Inl InvalidFormat)"

text \<open>
  The \<open>forEach\<close> of merge mode. Its callback calls \<open>this.getUserByEmail\<close> and
  \<open>this.generateUserId\<close>, which both read the stored collection; nothing is stored
  before the loop ends, so the first argument stays the same through the loop.
\<close>

fun mergeLoop :: "user list \<Rightarrow> user list \<Rightarrow> user list \<Rightarrow> user list" where
  "mergeLoop stored [] mergedUsers = mergedUsers"
| "mergeLoop stored (importedUser # rest) mergedUsers =
     mergeLoop stored rest
       (if getUserByEmail stored (email importedUser) = None
        then mergedUsers @ [importedUser\<lparr>uid := generateUserId stored\<rparr>]
        else mergedUsers)"

definition importUsers :: "user list \<Rightarrow> json \<Rightarrow> bool \<Rightarrow> nat outcome" where
  "importUsers users jsonData mergeMode =
     (case importedUsersOf jsonData of
        Inl err \<Rightarrow> (Inl err, users)
      | Inr importedUsers \<Rightarrow>
          if mergeMode
          then (let existingUsers = users;
                    mergedUsers = mergeLoop users importedUsers existingUsers
                in (Inr (length mergedUsers - length existingUsers), mergedUsers))
          else (Inr (length importedUsers), importedUsers))"

subsection \<open>Regular expressions\<close>

text \<open>
  The two patterns of \<open>validateUserData\<close> use character classes, sequencing, \<open>?\<close>,
  \<open>+\<close> and \<open>{0,15}\<close>, anchored at both ends. \<open>RegExp.prototype.test\<close> on such a
  pattern decides membership of the whole string in its language; the embedding decides
  it with derivatives.
\<close>

datatype cclass = OneOf "char list" | NoneOf "char list"

fun inClass :: "cclass \<Rightarrow> char \<Rightarrow> bool" where
  "inClass (OneOf cs) c = (c \<in> set cs)"
| "inClass (NoneOf cs) c = (c \<notin> set cs)"

datatype rx = Zero | Eps | Cls cclass | Alt rx rx | Seq rx rx | Star rx

definition Opt :: "rx \<Rightarrow> rx" where
  "Opt r = Alt r Eps"

definition Plus :: "rx \<Rightarrow> rx" where
  "Plus r = Seq r (Star r)"

fun Upto :: "rx \<Rightarrow> nat \<Rightarrow> rx" where
  "Upto r 0 = Eps"
| "Upto r (Suc n) = Opt (Seq r (Upto r n))"

fun nullable :: "rx \<Rightarrow> bool" where
  "nullable Zero = False"
| "nullable Eps = True"
| "nullable (Cls C) = False"
| "nullable (Alt r s) = (nullable r \<or> nullable s)"
| "nullable (Seq r s) = (nullable r \<and> nullable s)"
| "nullable (Star r) = True"

fun deriv :: "char \<Rightarrow> rx \<Rightarrow> rx" where
  "deriv c Zero = Zero"
| "deriv c Eps = Zero"
| "deriv c (Cls C) = (if inClass C c then Eps else Zero)"
| "deriv c (Alt r s) = Alt (deriv c r) (deriv c s)"
| "deriv c (Seq r s) =
     (if nullable r then Alt (Seq (deriv c r) s) (deriv c s) else Seq (deriv c r) s)"
| "deriv c (Star r) = Seq (deriv c r) (Star r)"

definition regexTest :: "rx \<Rightarrow> string \<Rightarrow> bool" where
  "regexTest r s = nullable (fold deriv s r)"

text \<open>
  The class \<open>\s\<close> and the characters \<open>trim\<close> removes, in the 8-bit range: tab,
  line feed, vertical tab, form feed, carriage return, space and the no-break space.
\<close>

definition whiteSpace :: "char list" where
  "whiteSpace =
     [CHR 0x09, CHR 0x0A, CHR 0x0B, CHR 0x0C, CHR 0x0D, CHR '' '', CHR 0xA0]"

definition digitChars :: "char list" where
  "digitChars = ''0123456789''"

text \<open>\<open>/^[^\s@]+@[^\s@]+\.[^\s@]+$/\<close>\<close>

definition emailRegex :: rx where
  "emailRegex =
     Seq (Plus (Cls (NoneOf (whiteSpace @ ''@''))))
       (Seq (Cls (OneOf ''@''))
         (Seq (Plus (Cls (NoneOf (whiteSpace @ ''@''))))
           (Seq (Cls (OneOf ''.''))
             (Plus (Cls (NoneOf (whiteSpace @ ''@'')))))))"

text \<open>\<open>/^[\+]?[1-9][\d]{0,15}$/\<close>\<close>

definition phoneRegex :: rx where
  "phoneRegex =
     Seq (Opt (Cls (OneOf ''+'')))
       (Seq (Cls (OneOf ''123456789''))
         (Upto (Cls (OneOf digitChars)) 15))"

text \<open>\<open>phone.replace(/[\s\-\(\)]/g, '')\<close>\<close>

definition stripPhone :: "string \<Rightarrow> string" where
  "stripPhone s = filter (\<lambda>c. \<not> inClass (OneOf (whiteSpace @ ''-()'')) c) s"

definition trim :: "string \<Rightarrow> string" where
  "trim s = rev (dropWhile (\<lambda>c. c \<in> set whiteSpace)
                  (rev (dropWhile (\<lambda>c. c \<in> set whiteSpace) s)))"

subsection \<open>The language of a pattern\<close>

text \<open>
  What a pattern matches, as a set of strings. It is the reference the derivative
  matcher is proved against, and gives the shape of the strings each pattern accepts.
\<close>

definition langSeq :: "string set \<Rightarrow> string set \<Rightarrow> string set" where
  "langSeq A B = {u @ v | u v. u \<in> A \<and> v \<in> B}"

inductive_set langStar :: "string set \<Rightarrow> string set" for A :: "string set" where
  langStar_empty: "[] \<in> langStar A"
| langStar_more: "u \<in> A \<Longrightarrow> v \<in> langStar A \<Longrightarrow> u @ v \<in> langStar A"

fun lang :: "rx \<Rightarrow> string set" where
  "lang Zero = {}"
| "lang Eps = {[]}"
| "lang (Cls C) = {[c] | c. inClass C c}"
| "lang (Alt r s) = lang r \<union> lang s"
| "lang (Seq r s) = langSeq (lang r) (lang s)"
| "lang (Star r) = langStar (lang r)"

subsection \<open>Validation\<close>

record validation =
  isValid :: bool
  errors :: "string list"

definition firstNameMsg :: string where
  "firstNameMsg = ''First name must be at least 2 characters long''"

definition lastNameMsg :: string where
  "lastNameMsg = ''Last name must be at least 2 characters long''"

definition emailMsg :: string where
  "emailMsg = ''Please provide a valid email address''"

definition phoneMsg :: string where
  "phoneMsg = ''Please provide a valid phone number''"

definition passwordMsg :: string where
  "passwordMsg = ''Password must be at least 8 characters long''"

text \<open>
  \<open>validateUserData\<close> reads its argument only. On a string, \<open>!s\<close> holds for the empty
  string alone.
\<close>

definition validateUserData :: "user_data \<Rightarrow> validation" where
  "validateUserData userData =
     (let errors1 =
            (if ud_firstName userData = [] \<or> length (trim (ud_firstName userData)) < 2
             then [firstNameMsg] else []);
          errors2 =
            (if ud_lastName userData = [] \<or> length (trim (ud_lastName userData)) < 2
             then errors1 @ [lastNameMsg] else errors1);
          errors3 =
            (if ud_email userData = [] \<or> \<not> regexTest emailRegex (ud_email userData)
             then errors2 @ [emailMsg] else errors2);
          errors4 =
            (if ud_phone userData = [] \<or>
                \<not> regexTest phoneRegex (stripPhone (ud_phone userData))
             then errors3 @ [phoneMsg] else errors3);
          errors5 =
            (if ud_password userData = [] \<or> length (ud_password userData) < 8
             then errors4 @ [passwordMsg] else errors4)
      in \<lparr> isValid = (length errors5 = 0), errors = errors5 \<rparr>)"

subsection \<open>The seeded collection\<close>

text \<open>The two records \<open>initializeStorage\<close> stores when the key is empty.\<close>

definition defaultUsers :: "timestamp \<Rightarrow> user list" where
  "defaultUsers now =
     [ \<lparr> uid = 1, firstName = ''John'', lastName = ''Doe'',
         email = ''john@example.com'', phone = ''+1234567890'',
         password = ''Password123!'', createdAt = now,
         lastLogin = None, isActive = True \<rparr>,
       \<lparr> uid = 2, firstName = ''Jane'', lastName = ''Smith'',
         email = ''jane@example.com'', phone = ''+0987654321'',
         password = ''SecurePass456@'', createdAt = now,
         lastLogin = None, isActive = True \<rparr> ]"

subsection \<open>Notions used in the statements\<close>

text \<open>
  The phone rule in the specification's words: after the stripping, digits with an
  optional leading plus.
\<close>

definition specPhoneOk :: "string \<Rightarrow> bool" where
  "specPhoneOk s =
     (case stripPhone s of
        [] \<Rightarrow> False
      | c # cs \<Rightarrow>
          if c = CHR ''+'' then cs \<noteq> [] \<and> list_all (\<lambda>d. d \<in> set digitChars) cs
          else list_all (\<lambda>d. d \<in> set digitChars) (c # cs))"

text \<open>
  The phone rule of the code, spelt out: after the stripping, an optional plus, one of
  the digits 1 to 9, and at most fifteen further digits.
\<close>

definition phoneShape :: "string \<Rightarrow> bool" where
  "phoneShape s =
     (case (case s of [] \<Rightarrow> [] | c # cs \<Rightarrow> if c = CHR ''+'' then cs else s) of
        [] \<Rightarrow> False
      | d # ds \<Rightarrow> d \<in> set ''123456789'' \<and>
                 list_all (\<lambda>x. x \<in> set digitChars) ds \<and> length ds \<le> 15)"

text \<open>Two emails match when they are equal up to letter case.\<close>

definition sameEmail :: "string \<Rightarrow> string \<Rightarrow> bool" where
  "sameEmail a b = (toLowerCase a = toLowerCase b)"

subsection \<open>Sample inputs\<close>

text \<open>The creation input of the specification's example scenario.\<close>

definition aliceData :: user_data where
  "aliceData = \<lparr> ud_firstName = ''Alice'', ud_lastName = ''Wilson'',
                 ud_email = ''Alice@X.com'', ud_phone = ''+15556667777'',
                 ud_password = ''Secret123!'' \<rparr>"

text \<open>Two records of an import snapshot.\<close>

definition sampleAlice :: user where
  "sampleAlice = \<lparr> uid = 10, firstName = ''Alice'', lastName = ''Wilson'',
                   email = ''alice@x.com'', phone = ''+15556667777'',
                   password = ''Secret123!'', createdAt = 1,
                   lastLogin = None, isActive = True \<rparr>"

definition sampleBob :: user where
  "sampleBob = \<lparr> uid = 11, firstName = ''Bob'', lastName = ''Stone'',
                 email = ''bob@x.com'', phone = ''+15550001111'',
                 password = ''Hunter2hunter'', createdAt = 2,
                 lastLogin = None, isActive = True \<rparr>"

text \<open>
  The seeded collection after the two sample records were merged into it: both carry
  the identifier 3.
\<close>

definition twinUsers :: "user list" where
  "twinUsers = defaultUsers 0 @ [sampleAlice\<lparr>uid := 3\<rparr>, sampleBob\<lparr>uid := 3\<rparr>]"

text \<open>The form data of the second seeded record.\<close>

definition janeData :: user_data where
  "janeData = \<lparr> ud_firstName = ''Jane'', ud_lastName = ''Smith'',
                ud_email = ''jane@example.com'', ud_phone = ''+0987654321'',
                ud_password = ''SecurePass456@'' \<rparr>"

text \<open>A creation input whose email is the first seeded email in another case.\<close>

definition johnData :: user_data where
  "johnData = \<lparr> ud_firstName = ''Johnny'', ud_lastName = ''Doe'',
                ud_email = ''John@Example.com'', ud_phone = ''+15550002222'',
                ud_password = ''Password456!'' \<rparr>"

section \<open>Evaluation\<close>

lemmas lower_simps = toLowerCase_def toLowerChar_def isUpperChar_def char_of_def
  bit_Suc_0_iff

lemmas num_eval = parseInt_def exponentLead_def roundDouble_def roundToEven_def Let_def
  bitLength.simps leadingDigit.simps nextRound.simps

lemma parseInt_small: "\<bar>x\<bar> < 10 ^ 21 \<Longrightarrow> parseInt x = x"
  by (simp add: parseInt_def)

lemma parseInt_10_21: "parseInt 1000000000000000000000 = 1"
  by (simp add: num_eval)

lemma roundDouble_small: "\<bar>x\<bar> \<le> 2 ^ 53 \<Longrightarrow> roundDouble x = x"
  by (simp add: roundDouble_def)

section \<open>Deleting\<close>

lemma filter_all_length:
  "(\<And>x. x \<in> set xs \<Longrightarrow> P x) \<Longrightarrow> length (filter P xs) = length xs"
  by (induction xs) auto

text \<open>
  When no record carries the parsed id, \<open>deleteUser\<close> throws \<open>'User not found'\<close> and
  stores nothing. Below \<open>10 ^ 21\<close> the parsed id is the id.
\<close>

lemma deleteUser_not_found:
  "\<forall>u \<in> set users. uid u \<noteq> parseInt userId \<Longrightarrow>
   deleteUser users userId = (Inl NotFound, users)"
  by (simp add: deleteUser_def Let_def filter_all_length)

lemma deleteUser_missing_small_id:
  "\<bar>userId\<bar> < 10 ^ 21 \<Longrightarrow> \<forall>u \<in> set users. uid u \<noteq> userId \<Longrightarrow>
   deleteUser users userId = (Inl NotFound, users)"
  by (simp add: deleteUser_not_found parseInt_small)

text \<open>
  Claim C6, at the id \<open>10 ^ 21\<close> on the seeded collection. No record carries that id,
  yet \<open>deleteUser\<close> does not throw: \<open>parseInt\<close> reads the id's string \<open>1e+21\<close> as 1,
  the record with id 1 is removed, the shorter collection is stored and \<open>true\<close> is
  returned.
\<close>

theorem deleteUser_large_id:
  "1000000000000000000000 \<notin> uid ` set (defaultUsers 0) \<and>
   deleteUser (defaultUsers 0) 1000000000000000000000 =
     (Inr True, [defaultUsers 0 ! 1])"
  by (simp add: deleteUser_def Let_def parseInt_10_21 defaultUsers_def)

section \<open>Lookups and identifiers\<close>

lemma toLowerChar_idem: "toLowerChar (toLowerChar c) = toLowerChar c"
  by (auto simp: toLowerChar_def isUpperChar_def)

lemma toLowerCase_idem: "toLowerCase (toLowerCase s) = toLowerCase s"
  by (simp add: toLowerCase_def toLowerChar_idem)

lemma getUserByEmail_None_iff:
  "getUserByEmail users e = None \<longleftrightarrow>
   (\<forall>u \<in> set users. toLowerCase (email u) \<noteq> toLowerCase e)"
  by (auto simp: getUserByEmail_def find_None_iff)

lemma mathMax_Max: "xs \<noteq> [] \<Longrightarrow> mathMax xs = Max (set xs)"
proof (cases xs)
  case Nil
  assume "xs \<noteq> []"
  with Nil show ?thesis by simp
next
  case (Cons a rest)
  with Max.set_eq_fold [of a rest] show ?thesis by simp
qed

lemma generateUserId_rounded:
  "generateUserId users =
     (if users = [] then 1 else roundDouble (Max (uid ` set users) + 1))"
  by (simp add: generateUserId_def mathMax_Max)

lemma generateUserId_Max:
  assumes "\<forall>u \<in> set users. \<bar>uid u\<bar> < 2 ^ 53"
  shows "generateUserId users = (if users = [] then 1 else Max (uid ` set users) + 1)"
proof (cases "users = []")
  case True
  then show ?thesis by (simp add: generateUserId_rounded)
next
  case False
  then have "Max (uid ` set users) \<in> uid ` set users"
    by (intro Max_in) simp_all
  with assms have "\<bar>Max (uid ` set users)\<bar> < 2 ^ 53"
    by auto
  then have "\<bar>Max (uid ` set users) + 1\<bar> \<le> 2 ^ 53"
    by simp
  with False show ?thesis
    by (simp add: generateUserId_rounded roundDouble_small)
qed

lemma find_snoc_fresh:
  "(\<And>x. x \<in> set xs \<Longrightarrow> \<not> P x) \<Longrightarrow> P y \<Longrightarrow> find P (xs @ [y]) = Some y"
  by (induction xs) auto

text \<open>
  Creation with a fresh email, in a collection whose identifiers are below \<open>2 ^ 53\<close>
  in magnitude: the new record gets \<open>max + 1\<close> (1 in the empty collection), the email
  in lower case, no \<open>lastLogin\<close> and \<open>isActive\<close> true; it is appended and returned,
  and \<open>getUserByEmail\<close> finds it under every case variant of the email.
\<close>

lemma addUser_fresh_email_exact:
  assumes fresh: "\<forall>u \<in> set users. toLowerCase (email u) \<noteq> toLowerCase (ud_email userData)"
    and small: "\<forall>u \<in> set users. \<bar>uid u\<bar> < 2 ^ 53"
  shows "\<exists>newUser.
           addUser now users userData = (Inr newUser, users @ [newUser]) \<and>
           uid newUser = (if users = [] then 1 else Max (uid ` set users) + 1) \<and>
           email newUser = toLowerCase (ud_email userData) \<and>
           firstName newUser = ud_firstName userData \<and>
           lastName newUser = ud_lastName userData \<and>
           phone newUser = ud_phone userData \<and>
           password newUser = ud_password userData \<and>
           createdAt newUser = now \<and>
           lastLogin newUser = None \<and>
           isActive newUser \<and>
           (\<forall>e. toLowerCase e = toLowerCase (ud_email userData) \<longrightarrow>
                getUserByEmail (users @ [newUser]) e = Some newUser)"
proof -
  define newUser where
    "newUser = \<lparr> uid = generateUserId users, firstName = ud_firstName userData,
                 lastName = ud_lastName userData,
                 email = toLowerCase (ud_email userData), phone = ud_phone userData,
                 password = ud_password userData, createdAt = now,
                 lastLogin = None, isActive = True \<rparr>"
  from fresh have none: "getUserByEmail users (ud_email userData) = None"
    by (simp add: getUserByEmail_None_iff)
  have run: "addUser now users userData = (Inr newUser, users @ [newUser])"
    by (simp add: addUser_def none newUser_def Let_def)
  have look: "getUserByEmail (users @ [newUser]) e = Some newUser"
    if "toLowerCase e = toLowerCase (ud_email userData)" for e
    unfolding getUserByEmail_def
  proof (rule find_snoc_fresh)
    fix x assume "x \<in> set users"
    with fresh that show "toLowerCase (email x) \<noteq> toLowerCase e" by simp
  next
    show "toLowerCase (email newUser) = toLowerCase e"
      using that by (simp add: newUser_def toLowerCase_idem)
  qed
  show ?thesis
    apply (rule exI [of _ newUser])
    using run look by (simp add: newUser_def generateUserId_Max [OF small])
qed

text \<open>
  Claim C3, at a collection whose one record has the identifier \<open>2 ^ 53\<close>. The email
  of the input is fresh and the creation succeeds, but \<open>Math.max(...) + 1\<close> is a sum of
  doubles: \<open>2 ^ 53 + 1\<close> is no double and rounds to \<open>2 ^ 53\<close>. The new record gets
  the identifier of the stored record, not \<open>max + 1\<close>.
\<close>

theorem addUser_id_rounded:
  "getUserByEmail [sampleBob\<lparr>uid := 9007199254740992\<rparr>] (ud_email aliceData) = None \<and>
   Max (uid ` set [sampleBob\<lparr>uid := 9007199254740992\<rparr>]) + 1 = 9007199254740993 \<and>
   addUser 5 [sampleBob\<lparr>uid := 9007199254740992\<rparr>] aliceData =
     (Inr \<lparr> uid = 9007199254740992, firstName = ''Alice'', lastName = ''Wilson'',
            email = ''alice@x.com'', phone = ''+15556667777'',
            password = ''Secret123!'', createdAt = 5, lastLogin = None,
            isActive = True \<rparr>,
      [sampleBob\<lparr>uid := 9007199254740992\<rparr>,
       \<lparr> uid = 9007199254740992, firstName = ''Alice'', lastName = ''Wilson'',
         email = ''alice@x.com'', phone = ''+15556667777'',
         password = ''Secret123!'', createdAt = 5, lastLogin = None,
         isActive = True \<rparr>])"
proof -
  have none: "getUserByEmail [sampleBob\<lparr>uid := 9007199254740992\<rparr>] (ud_email aliceData) = None"
    by (simp add: getUserByEmail_def sampleBob_def aliceData_def lower_simps)
  have r: "roundDouble 9007199254740993 = 9007199254740992"
    by (simp add: num_eval)
  have g: "generateUserId [sampleBob\<lparr>uid := 9007199254740992\<rparr>] = 9007199254740992"
    by (simp add: generateUserId_def r)
  have l: "toLowerCase (ud_email aliceData) = ''alice@x.com''"
    by (simp add: aliceData_def lower_simps)
  show ?thesis
    by (simp add: addUser_def none g l Let_def) (simp add: aliceData_def)
qed

lemma addUser_duplicate:
  "getUserByEmail users (ud_email userData) = Some u \<Longrightarrow>
   addUser now users userData = (Inl DuplicateEmail, users)"
  by (simp add: addUser_def)

lemma filter_snoc_single:
  "(\<And>x. x \<in> set xs \<Longrightarrow> \<not> P x) \<Longrightarrow> P y \<Longrightarrow> filter P (xs @ [y]) = [y]"
  by (simp add: filter_empty_conv)

text \<open>
  Claim C4, amended. For every collection in which no record matches the email up to
  letter case, and every two creation inputs whose emails are equal up to letter case,
  the first \<open>addUser\<close> succeeds, the second throws
  \<open>'User with this email already exists'\<close> and stores nothing, and the collection
  holds exactly one record with that email.
\<close>

theorem addUser_case_variant_twice:
  assumes fresh: "\<forall>u \<in> set users. \<not> sameEmail (email u) (ud_email d1)"
    and same: "sameEmail (ud_email d1) (ud_email d2)"
  shows "\<exists>u1 users1.
           addUser t1 users d1 = (Inr u1, users1) \<and>
           addUser t2 users1 d2 = (Inl DuplicateEmail, users1) \<and>
           filter (\<lambda>u. sameEmail (email u) (ud_email d1)) users1 = [u1] \<and>
           length (filter (\<lambda>u. sameEmail (email u) (ud_email d1)) users1) = 1"
proof -
  define u1 where
    "u1 = \<lparr> uid = generateUserId users, firstName = ud_firstName d1,
            lastName = ud_lastName d1, email = toLowerCase (ud_email d1),
            phone = ud_phone d1, password = ud_password d1, createdAt = t1,
            lastLogin = None, isActive = True \<rparr>"
  from fresh have none: "getUserByEmail users (ud_email d1) = None"
    by (simp add: getUserByEmail_None_iff sameEmail_def)
  have first: "addUser t1 users d1 = (Inr u1, users @ [u1])"
    by (simp add: addUser_def none u1_def Let_def)
  have match: "sameEmail (email u1) (ud_email d1)"
    by (simp add: u1_def sameEmail_def toLowerCase_idem)
  have "getUserByEmail (users @ [u1]) (ud_email d2) = Some u1"
    unfolding getUserByEmail_def
  proof (rule find_snoc_fresh)
    fix x assume "x \<in> set users"
    with fresh same show "toLowerCase (email x) \<noteq> toLowerCase (ud_email d2)"
      by (auto simp: sameEmail_def)
  next
    from match same show "toLowerCase (email u1) = toLowerCase (ud_email d2)"
      by (simp add: sameEmail_def)
  qed
  then have second: "addUser t2 (users @ [u1]) d2 = (Inl DuplicateEmail, users @ [u1])"
    by (rule addUser_duplicate)
  have one: "filter (\<lambda>u. sameEmail (email u) (ud_email d1)) (users @ [u1]) = [u1]"
    using fresh match by (intro filter_snoc_single) auto
  from first second one show ?thesis by simp
qed

theorem addUser_case_variant_twice_witness:
  "\<not> (\<exists>u \<in> set (defaultUsers 0). sameEmail (email u) (ud_email aliceData)) \<and>
   sameEmail (ud_email aliceData) (ud_email (aliceData\<lparr>ud_email := ''ALICE@x.COM''\<rparr>)) \<and>
   (\<exists>u1 users1.
      addUser 5 (defaultUsers 0) aliceData = (Inr u1, users1) \<and>
      addUser 6 users1 (aliceData\<lparr>ud_email := ''ALICE@x.COM''\<rparr>) =
        (Inl DuplicateEmail, users1) \<and>
      length (filter (\<lambda>u. sameEmail (email u) (ud_email aliceData)) users1) = 1)"
proof -
  have fresh: "\<forall>u \<in> set (defaultUsers 0). \<not> sameEmail (email u) (ud_email aliceData)"
    by (simp add: defaultUsers_def aliceData_def sameEmail_def lower_simps)
  have same: "sameEmail (ud_email aliceData)
                (ud_email (aliceData\<lparr>ud_email := ''ALICE@x.COM''\<rparr>))"
    by (simp add: aliceData_def sameEmail_def lower_simps)
  from addUser_case_variant_twice [OF fresh same, of 5 6] fresh same
  show ?thesis by blast
qed

text \<open>
  On the seeded collection the first creation already fails when its email is a case
  variant of a seeded email.
\<close>

theorem addUser_first_creation_counterexample:
  "sameEmail (ud_email johnData) (ud_email (johnData\<lparr>ud_email := ''JOHN@EXAMPLE.COM''\<rparr>)) \<and>
   ud_email johnData \<noteq> ud_email (johnData\<lparr>ud_email := ''JOHN@EXAMPLE.COM''\<rparr>) \<and>
   addUser 5 (defaultUsers 0) johnData = (Inl DuplicateEmail, defaultUsers 0)"
  by (simp add: addUser_def getUserByEmail_def defaultUsers_def johnData_def
      sameEmail_def lower_simps)

section \<open>Updating\<close>

lemma findIndex_None_iff: "findIndex P xs = None \<longleftrightarrow> (\<forall>x \<in> set xs. \<not> P x)"
  by (induction xs) auto

lemma findIndex_Some:
  "findIndex P xs = Some k \<Longrightarrow> k < length xs \<and> P (xs ! k) \<and> (\<forall>j<k. \<not> P (xs ! j))"
proof (induction xs arbitrary: k)
  case Nil
  then show ?case by simp
next
  case (Cons x xs)
  show ?case
  proof (cases "P x")
    case True
    with Cons.prems show ?thesis by simp
  next
    case False
    with Cons.prems obtain k' where k': "findIndex P xs = Some k'" "k = Suc k'"
      by auto
    from Cons.IH [OF k'(1)] False k'(2) show ?thesis
      by (auto simp: less_Suc_eq_0_disj)
  qed
qed

lemma updateUser_found:
  "findIndex (\<lambda>u. uid u = parseInt userId) users = Some k \<Longrightarrow>
   updateUser users userId d =
     (Inr (spread (users ! k) d), users[k := spread (users ! k) d])"
  by (auto simp: updateUser_def Let_def dest: findIndex_Some)

text \<open>
  An update by an id below \<open>10 ^ 21\<close> that some record carries: the supplied fields of
  the first record with that id are overwritten, its other fields and every other
  record are kept, and the updated record is returned, whatever email the update
  supplies.
\<close>

lemma updateUser_existing_small_id:
  assumes "userId \<in> uid ` set users" and small: "\<bar>userId\<bar> < 10 ^ 21"
  shows "\<exists>k new users'.
           k < length users \<and> uid (users ! k) = userId \<and>
           (\<forall>j<k. uid (users ! j) \<noteq> userId) \<and>
           updateUser users userId d = (Inr new, users') \<and>
           uid new = (case upd_id d of Some v \<Rightarrow> v | None \<Rightarrow> uid (users ! k)) \<and>
           firstName new =
             (case upd_firstName d of Some v \<Rightarrow> v | None \<Rightarrow> firstName (users ! k)) \<and>
           lastName new =
             (case upd_lastName d of Some v \<Rightarrow> v | None \<Rightarrow> lastName (users ! k)) \<and>
           email new = (case upd_email d of Some v \<Rightarrow> v | None \<Rightarrow> email (users ! k)) \<and>
           phone new = (case upd_phone d of Some v \<Rightarrow> v | None \<Rightarrow> phone (users ! k)) \<and>
           password new =
             (case upd_password d of Some v \<Rightarrow> v | None \<Rightarrow> password (users ! k)) \<and>
           createdAt new =
             (case upd_createdAt d of Some v \<Rightarrow> v | None \<Rightarrow> createdAt (users ! k)) \<and>
           lastLogin new =
             (case upd_lastLogin d of Some v \<Rightarrow> v | None \<Rightarrow> lastLogin (users ! k)) \<and>
           isActive new =
             (case upd_isActive d of Some v \<Rightarrow> v | None \<Rightarrow> isActive (users ! k)) \<and>
           length users' = length users \<and> users' ! k = new \<and>
           (\<forall>j<length users. j \<noteq> k \<longrightarrow> users' ! j = users ! j)"
proof -
  from assms have "findIndex (\<lambda>u. uid u = userId) users \<noteq> None"
    by (auto simp: findIndex_None_iff)
  then obtain k0 where "findIndex (\<lambda>u. uid u = userId) users = Some k0"
    by blast
  with small obtain k where k: "findIndex (\<lambda>u. uid u = parseInt userId) users = Some k"
    by (simp add: parseInt_small)
  from findIndex_Some [OF k] small have first:
    "k < length users \<and> uid (users ! k) = userId \<and> (\<forall>j<k. uid (users ! j) \<noteq> userId)"
    by (simp add: parseInt_small)
  let ?new = "spread (users ! k) d"
  have run: "updateUser users userId d = (Inr ?new, users[k := ?new])"
    by (rule updateUser_found [OF k])
  have fields: "uid ?new = (case upd_id d of Some v \<Rightarrow> v | None \<Rightarrow> uid (users ! k))"
    "firstName ?new = (case upd_firstName d of Some v \<Rightarrow> v | None \<Rightarrow> firstName (users ! k))"
    "lastName ?new = (case upd_lastName d of Some v \<Rightarrow> v | None \<Rightarrow> lastName (users ! k))"
    "email ?new = (case upd_email d of Some v \<Rightarrow> v | None \<Rightarrow> email (users ! k))"
    "phone ?new = (case upd_phone d of Some v \<Rightarrow> v | None \<Rightarrow> phone (users ! k))"
    "password ?new = (case upd_password d of Some v \<Rightarrow> v | None \<Rightarrow> password (users ! k))"
    "createdAt ?new = (case upd_createdAt d of Some v \<Rightarrow> v | None \<Rightarrow> createdAt (users ! k))"
    "lastLogin ?new = (case upd_lastLogin d of Some v \<Rightarrow> v | None \<Rightarrow> lastLogin (users ! k))"
    "isActive ?new = (case upd_isActive d of Some v \<Rightarrow> v | None \<Rightarrow> isActive (users ! k))"
    by (simp_all add: spread_def)
  have frame: "length (users[k := ?new]) = length users" "users[k := ?new] ! k = ?new"
    "\<forall>j<length users. j \<noteq> k \<longrightarrow> users[k := ?new] ! j = users ! j"
    using first by simp_all
  show ?thesis
    apply (rule exI [of _ k])
    apply (rule exI [of _ ?new])
    apply (rule exI [of _ "users[k := ?new]"])
    using first run fields frame by blast
qed

text \<open>
  Claim C8, at a record whose identifier is \<open>10 ^ 21\<close>. \<open>updateUser\<close> looks for the
  identifier \<open>parseInt\<close> makes of it, which is 1. In a collection of that record alone
  it throws \<open>'User not found'\<close>; after the seeded records it overwrites the phone of
  the record with id 1 and leaves the record with the given id as it was.
\<close>

theorem updateUser_large_id:
  "1000000000000000000000 \<in> uid ` set [sampleAlice\<lparr>uid := 1000000000000000000000\<rparr>] \<and>
   updateUser [sampleAlice\<lparr>uid := 1000000000000000000000\<rparr>] 1000000000000000000000
     (noUpdate\<lparr>upd_phone := Some ''+15559990000''\<rparr>) =
     (Inl NotFound, [sampleAlice\<lparr>uid := 1000000000000000000000\<rparr>]) \<and>
   updateUser (defaultUsers 0 @ [sampleAlice\<lparr>uid := 1000000000000000000000\<rparr>])
     1000000000000000000000 (noUpdate\<lparr>upd_phone := Some ''+15559990000''\<rparr>) =
     (Inr ((defaultUsers 0 ! 0)\<lparr>phone := ''+15559990000''\<rparr>),
      [(defaultUsers 0 ! 0)\<lparr>phone := ''+15559990000''\<rparr>, defaultUsers 0 ! 1,
       sampleAlice\<lparr>uid := 1000000000000000000000\<rparr>])"
  by (simp add: updateUser_def parseInt_10_21 Let_def defaultUsers_def sampleAlice_def
      spread_def noUpdate_def)

section \<open>Authentication\<close>

lemma find_findIndex:
  "find P xs = Some u \<longleftrightarrow> (\<exists>k. findIndex P xs = Some k \<and> xs ! k = u)"
  by (induction xs) auto

lemma find_update_first:
  "findIndex P xs = Some k \<Longrightarrow> P y \<Longrightarrow> find P (xs[k := y]) = Some y"
proof (induction xs arbitrary: k)
  case Nil
  then show ?case by simp
next
  case (Cons x xs)
  then show ?case by (cases "P x") auto
qed

lemma spread_lastLogin:
  "spread u (noUpdate\<lparr>upd_lastLogin := Some (Some now)\<rparr>) = u\<lparr>lastLogin := Some now\<rparr>"
  by (simp add: spread_def noUpdate_def)

lemma getUserByEmail_Some_index:
  "getUserByEmail users e = Some u \<longleftrightarrow>
   (\<exists>k. findIndex (\<lambda>v. sameEmail (email v) e) users = Some k \<and> users ! k = u)"
  by (simp add: getUserByEmail_def sameEmail_def find_findIndex)



text \<open>
  With the right password for an active record: the write goes to the first record
  whose identifier is \<open>parseInt\<close> of the matched record's identifier, and the matched
  record is returned as it was found; when there is no such record, \<open>updateUser\<close>
  throws and so does \<open>authenticateUser\<close>.
\<close>

lemma authenticateUser_written:
  assumes "getUserByEmail users e = Some u" and "isActive u" and "password u = pw"
    and "findIndex (\<lambda>v. uid v = parseInt (uid u)) users = Some k"
  shows "authenticateUser now users e pw =
           (Inr u, users[k := (users ! k)\<lparr>lastLogin := Some now\<rparr>])"
  using assms updateUser_found [of "uid u" users k "noUpdate\<lparr>upd_lastLogin := Some (Some now)\<rparr>"]
  by (simp add: authenticateUser_def spread_lastLogin)



lemmas auth_eval = authenticateUser_def getUserByEmail_def updateUser_def spread_def
  noUpdate_def Let_def sameEmail_def parseInt_small lower_simps

text \<open>
  The outcomes of \<open>authenticateUser\<close>: \<open>'User not found'\<close> when no stored record
  matches the email up to letter case; \<open>'User account is disabled'\<close> when the matched
  record is inactive, whatever the password; \<open>'Invalid password'\<close> when the matched
  record is active and its password differs from the supplied one. Otherwise, when the
  matched record is the first one that the lookup by its parsed identifier finds, it is
  returned and its stored copy gets the clock reading \<open>now\<close> as \<open>lastLogin\<close>, a time
  not before the start of the call.
\<close>

lemma authenticateUser_outcomes:
  "((\<forall>u \<in> set users. \<not> sameEmail (email u) e) \<longrightarrow>
      authenticateUser now users e pw = (Inl NotFound, users)) \<and>
   (\<forall>u. getUserByEmail users e = Some u \<and> \<not> isActive u \<longrightarrow>
      authenticateUser now users e pw = (Inl AccountDisabled, users)) \<and>
   (\<forall>u. getUserByEmail users e = Some u \<and> isActive u \<and> password u \<noteq> pw \<longrightarrow>
      authenticateUser now users e pw = (Inl InvalidCredentials, users)) \<and>
   (\<forall>u. getUserByEmail users e = Some u \<and> isActive u \<and> password u = pw \<and>
        findIndex (\<lambda>v. uid v = parseInt (uid u)) users =
          findIndex (\<lambda>v. sameEmail (email v) e) users \<longrightarrow>
      (\<exists>k users'. k < length users \<and> users ! k = u \<and>
         authenticateUser now users e pw = (Inr u, users') \<and>
         users' = users[k := u\<lparr>lastLogin := Some now\<rparr>] \<and>
         getUserByEmail users' e = Some (u\<lparr>lastLogin := Some now\<rparr>) \<and>
         (\<forall>callTime \<le> now. \<exists>t \<ge> callTime. lastLogin (users' ! k) = Some t)))"
proof (intro conjI allI impI)
  assume "\<forall>u \<in> set users. \<not> sameEmail (email u) e"
  then have "getUserByEmail users e = None"
    by (simp add: getUserByEmail_None_iff sameEmail_def)
  then show "authenticateUser now users e pw = (Inl NotFound, users)"
    by (simp add: authenticateUser_def)
next
  fix u assume "getUserByEmail users e = Some u \<and> \<not> isActive u"
  then show "authenticateUser now users e pw = (Inl AccountDisabled, users)"
    by (simp add: authenticateUser_def)
next
  fix u assume "getUserByEmail users e = Some u \<and> isActive u \<and> password u \<noteq> pw"
  then show "authenticateUser now users e pw = (Inl InvalidCredentials, users)"
    by (simp add: authenticateUser_def)
next
  fix u
  assume a: "getUserByEmail users e = Some u \<and> isActive u \<and> password u = pw \<and>
        findIndex (\<lambda>v. uid v = parseInt (uid u)) users =
          findIndex (\<lambda>v. sameEmail (email v) e) users"
  then obtain k where k: "findIndex (\<lambda>v. sameEmail (email v) e) users = Some k"
      and uk: "users ! k = u"
    by (auto simp: getUserByEmail_Some_index)
  from a k have kid: "findIndex (\<lambda>v. uid v = parseInt (uid u)) users = Some k"
    by simp
  from authenticateUser_written [of users e u pw k now] a kid uk
  have run: "authenticateUser now users e pw = (Inr u, users[k := u\<lparr>lastLogin := Some now\<rparr>])"
    by auto
  from findIndex_Some [OF k] uk have klen: "k < length users" and same: "sameEmail (email u) e"
    by auto
  have look: "getUserByEmail (users[k := u\<lparr>lastLogin := Some now\<rparr>]) e =
      Some (u\<lparr>lastLogin := Some now\<rparr>)"
    unfolding getUserByEmail_def
    using find_update_first [of "\<lambda>v. toLowerCase (email v) = toLowerCase e" users k
        "u\<lparr>lastLogin := Some now\<rparr>"] k same
    by (simp add: sameEmail_def)
  have time: "\<forall>callTime \<le> now. \<exists>t \<ge> callTime.
      lastLogin (users[k := u\<lparr>lastLogin := Some now\<rparr>] ! k) = Some t"
    using klen by simp
  show "\<exists>k users'. k < length users \<and> users ! k = u \<and>
         authenticateUser now users e pw = (Inr u, users') \<and>
         users' = users[k := u\<lparr>lastLogin := Some now\<rparr>] \<and>
         getUserByEmail users' e = Some (u\<lparr>lastLogin := Some now\<rparr>) \<and>
         (\<forall>callTime \<le> now. \<exists>t \<ge> callTime. lastLogin (users' ! k) = Some t)"
    apply (rule exI [of _ k])
    apply (rule exI [of _ "users[k := u\<lparr>lastLogin := Some now\<rparr>]"])
    using klen uk run look time by blast
qed

text \<open>
  Claim C2, on the collection \<open>twinUsers\<close>, where the record of \<open>bob@x.com\<close> shares
  the identifier 3 with the record before it. The email matches, the record is active
  and the password is the stored one, so the call succeeds and returns that record. The
  timestamp is written to the first record with identifier 3, which is another user's;
  the stored record of the authenticated user keeps its \<open>lastLogin\<close>.
\<close>

theorem authenticateUser_shared_id:
  "getUserByEmail twinUsers ''bob@x.com'' = Some (sampleBob\<lparr>uid := 3\<rparr>) \<and>
   isActive (sampleBob\<lparr>uid := 3\<rparr>) \<and>
   password (sampleBob\<lparr>uid := 3\<rparr>) = ''Hunter2hunter'' \<and>
   authenticateUser 9 twinUsers ''bob@x.com'' ''Hunter2hunter'' =
     (Inr (sampleBob\<lparr>uid := 3\<rparr>),
      defaultUsers 0 @ [sampleAlice\<lparr>uid := 3, lastLogin := Some 9\<rparr>, sampleBob\<lparr>uid := 3\<rparr>]) \<and>
   getUserByEmail
     (defaultUsers 0 @ [sampleAlice\<lparr>uid := 3, lastLogin := Some 9\<rparr>, sampleBob\<lparr>uid := 3\<rparr>])
     ''bob@x.com'' = Some (sampleBob\<lparr>uid := 3\<rparr>) \<and>
   lastLogin (sampleBob\<lparr>uid := 3\<rparr>) \<noteq> Some 9"
  by (simp add: auth_eval twinUsers_def defaultUsers_def sampleAlice_def sampleBob_def)




section \<open>Import and export\<close>

lemma mergeLoop_eq:
  "mergeLoop stored importedUsers mergedUsers =
     mergedUsers @ map (\<lambda>u. u\<lparr>uid := generateUserId stored\<rparr>)
       (filter (\<lambda>u. getUserByEmail stored (email u) = None) importedUsers)"
  by (induction importedUsers arbitrary: mergedUsers) simp_all

lemma importUsers_merge:
  "importedUsersOf jsonData = Inr importedUsers \<Longrightarrow>
   importUsers users jsonData True =
     (Inr (length (filter (\<lambda>u. getUserByEmail users (email u) = None) importedUsers)),
      users @ map (\<lambda>u. u\<lparr>uid := generateUserId users\<rparr>)
        (filter (\<lambda>u. getUserByEmail users (email u) = None) importedUsers))"
  by (simp add: importUsers_def mergeLoop_eq Let_def)

lemma filter_count_distinct:
  "distinct (map f xs) \<Longrightarrow> length (filter (\<lambda>x. f x = v) xs) \<le> 1"
proof (induction xs)
  case Nil
  then show ?case by simp
next
  case (Cons x xs)
  show ?case
  proof (cases "f x = v")
    case True
    from Cons.prems have "f x \<notin> f ` set xs" by simp
    with True have "\<forall>y \<in> set xs. f y \<noteq> v" by blast
    then have "filter (\<lambda>x. f x = v) xs = []" by (simp add: filter_empty_conv)
    with True show ?thesis by simp
  next
    case False
    with Cons show ?thesis by simp
  qed
qed

text \<open>
  Claim C10. When the snapshot of a merge-mode import holds two or more records with
  the same email (up to letter case) and no stored record has that email, every one of
  them is appended, each with the identifier computed from the stored collection, and
  the resulting collection holds records with duplicate emails.
\<close>

theorem importUsers_merge_repeated_email:
  assumes seq: "importedUsersOf jsonData = Inr importedUsers"
    and absent: "\<forall>u \<in> set users. \<not> sameEmail (email u) e"
    and twice: "2 \<le> length (filter (\<lambda>u. sameEmail (email u) e) importedUsers)"
  shows "\<exists>n users'.
           importUsers users jsonData True = (Inr n, users') \<and>
           take (length users) users' = users \<and>
           filter (\<lambda>u. sameEmail (email u) e) users' =
             map (\<lambda>u. u\<lparr>uid := generateUserId users\<rparr>)
               (filter (\<lambda>u. sameEmail (email u) e) importedUsers) \<and>
           2 \<le> length (filter (\<lambda>u. sameEmail (email u) e) users') \<and>
           \<not> distinct (map (\<lambda>u. toLowerCase (email u)) users')"
proof -
  let ?fresh = "\<lambda>u. getUserByEmail users (email u) = None"
  let ?reid = "\<lambda>u. u\<lparr>uid := generateUserId users\<rparr>"
  let ?same = "\<lambda>u. sameEmail (email u) e"
  let ?users' = "users @ map ?reid (filter ?fresh importedUsers)"
  have old: "filter ?same users = []"
    using absent by (simp add: filter_empty_conv)
  have imp: "?same u \<Longrightarrow> ?fresh u" for u
    using absent by (simp add: getUserByEmail_None_iff sameEmail_def)
  have "filter ?same (map ?reid (filter ?fresh importedUsers)) =
        map ?reid (filter ?same (filter ?fresh importedUsers))"
    by (simp add: filter_map comp_def)
  also have "filter ?same (filter ?fresh importedUsers) = filter ?same importedUsers"
    using imp by (auto intro: filter_cong)
  finally have new: "filter ?same (map ?reid (filter ?fresh importedUsers)) =
        map ?reid (filter ?same importedUsers)" .
  have all: "filter ?same ?users' = map ?reid (filter ?same importedUsers)"
    using old new by simp
  with twice have two: "2 \<le> length (filter ?same ?users')" by simp
  have dup: "\<not> distinct (map (\<lambda>u. toLowerCase (email u)) ?users')"
  proof
    assume "distinct (map (\<lambda>u. toLowerCase (email u)) ?users')"
    from filter_count_distinct [OF this, of "toLowerCase e"]
    have "length (filter ?same ?users') \<le> 1" by (simp add: sameEmail_def)
    with two show False by simp
  qed
  from importUsers_merge [OF seq, of users] all two dup show ?thesis
    by auto
qed

theorem importUsers_merge_repeated_email_witness:
  "importedUsersOf (JArray [sampleAlice, sampleBob, sampleAlice]) =
     Inr [sampleAlice, sampleBob, sampleAlice] \<and>
   \<not> (\<exists>u \<in> set (defaultUsers 0). sameEmail (email u) ''alice@x.com'') \<and>
   2 \<le> length (filter (\<lambda>u. sameEmail (email u) ''alice@x.com'')
                 [sampleAlice, sampleBob, sampleAlice]) \<and>
   (\<exists>n users'.
      importUsers (defaultUsers 0) (JArray [sampleAlice, sampleBob, sampleAlice]) True =
        (Inr n, users') \<and>
      filter (\<lambda>u. sameEmail (email u) ''alice@x.com'') users' =
        [sampleAlice\<lparr>uid := 3\<rparr>, sampleAlice\<lparr>uid := 3\<rparr>])"
proof -
  have seq: "importedUsersOf (JArray [sampleAlice, sampleBob, sampleAlice]) =
     Inr [sampleAlice, sampleBob, sampleAlice]"
    by (simp add: importedUsersOf_def)
  have absent: "\<forall>u \<in> set (defaultUsers 0). \<not> sameEmail (email u) ''alice@x.com''"
    by (simp add: defaultUsers_def sameEmail_def lower_simps)
  have f: "filter (\<lambda>u. sameEmail (email u) ''alice@x.com'')
             [sampleAlice, sampleBob, sampleAlice] = [sampleAlice, sampleAlice]"
    by (simp add: sampleAlice_def sampleBob_def sameEmail_def lower_simps)
  then have twice: "2 \<le> length (filter (\<lambda>u. sameEmail (email u) ''alice@x.com'')
                 [sampleAlice, sampleBob, sampleAlice])"
    by simp
  have g: "generateUserId (defaultUsers 0) = 3"
    by (simp add: generateUserId_def defaultUsers_def roundDouble_small)
  from importUsers_merge_repeated_email [OF seq absent twice] obtain n users' where
    run: "importUsers (defaultUsers 0) (JArray [sampleAlice, sampleBob, sampleAlice]) True =
        (Inr n, users')" and
    all: "filter (\<lambda>u. sameEmail (email u) ''alice@x.com'') users' =
          map (\<lambda>u. u\<lparr>uid := generateUserId (defaultUsers 0)\<rparr>)
            (filter (\<lambda>u. sameEmail (email u) ''alice@x.com'')
               [sampleAlice, sampleBob, sampleAlice])"
    by blast
  from all have "filter (\<lambda>u. sameEmail (email u) ''alice@x.com'') users' =
        [sampleAlice\<lparr>uid := 3\<rparr>, sampleAlice\<lparr>uid := 3\<rparr>]"
    unfolding f g by simp
  with run seq absent twice show ?thesis by blast
qed

text \<open>
  Claim C1, at a snapshot with two new records: both are appended and the count 2 is
  returned, and both get the identifier 3, since \<open>generateUserId\<close> reads the stored
  collection, which the loop does not change.
\<close>

theorem importUsers_merge_shared_id:
  "importUsers (defaultUsers 0) (JArray [sampleAlice, sampleBob]) True =
     (Inr 2, twinUsers) \<and>
   twinUsers = defaultUsers 0 @ [sampleAlice\<lparr>uid := 3\<rparr>, sampleBob\<lparr>uid := 3\<rparr>] \<and>
   \<not> distinct (map uid (snd (importUsers (defaultUsers 0)
                                 (JArray [sampleAlice, sampleBob]) True)))"
proof -
  have g: "generateUserId (defaultUsers 0) = 3"
    by (simp add: generateUserId_def defaultUsers_def roundDouble_small)
  have a: "getUserByEmail (defaultUsers 0) (email sampleAlice) = None"
    by (simp add: getUserByEmail_def defaultUsers_def sampleAlice_def lower_simps)
  have b: "getUserByEmail (defaultUsers 0) (email sampleBob) = None"
    by (simp add: getUserByEmail_def defaultUsers_def sampleBob_def lower_simps)
  have run: "importUsers (defaultUsers 0) (JArray [sampleAlice, sampleBob]) True =
     (Inr 2, twinUsers)"
    by (simp add: importUsers_def importedUsersOf_def Let_def a b g twinUsers_def)
  show ?thesis
    unfolding run by (simp add: twinUsers_def defaultUsers_def)
qed

text \<open>
  Claim C5. Importing in replace mode the snapshot \<open>exportUsers\<close> made of a collection
  stores that collection again: the same records, so the same set of records, and as
  many as the snapshot holds; the call returns that number.
\<close>

theorem export_import_replace:
  "importUsers current (exportUsers now users) False = (Inr (length users), users) \<and>
   importedUsersOf (exportUsers now users) = Inr users \<and>
   set (snd (importUsers current (exportUsers now users) False)) = set users \<and>
   length (snd (importUsers current (exportUsers now users) False)) = length users"
  by (simp add: importUsers_def importedUsersOf_def exportUsers_def)

section \<open>Validation\<close>

subsection \<open>The matcher decides the language\<close>

lemma nil_in_langSeq: "[] \<in> langSeq A B \<longleftrightarrow> [] \<in> A \<and> [] \<in> B"
  by (auto simp: langSeq_def)

lemma nullable_lang: "nullable r \<longleftrightarrow> [] \<in> lang r"
  by (induction r) (auto simp: nil_in_langSeq intro: langStar_empty)

lemma cons_in_langSeq:
  "c # w \<in> langSeq A B \<longleftrightarrow>
   (\<exists>u v. w = u @ v \<and> c # u \<in> A \<and> v \<in> B) \<or> ([] \<in> A \<and> c # w \<in> B)"
proof
  assume "c # w \<in> langSeq A B"
  then obtain u v where uv: "c # w = u @ v" "u \<in> A" "v \<in> B"
    by (auto simp: langSeq_def)
  show "(\<exists>u v. w = u @ v \<and> c # u \<in> A \<and> v \<in> B) \<or> ([] \<in> A \<and> c # w \<in> B)"
  proof (cases u)
    case Nil
    with uv show ?thesis by simp
  next
    case (Cons a u')
    with uv show ?thesis by auto
  qed
next
  assume "(\<exists>u v. w = u @ v \<and> c # u \<in> A \<and> v \<in> B) \<or> ([] \<in> A \<and> c # w \<in> B)"
  then show "c # w \<in> langSeq A B"
  proof
    assume "\<exists>u v. w = u @ v \<and> c # u \<in> A \<and> v \<in> B"
    then obtain u v where "w = u @ v" "c # u \<in> A" "v \<in> B" by blast
    then have "(c # u) @ v \<in> langSeq A B" unfolding langSeq_def by blast
    with \<open>w = u @ v\<close> show ?thesis by simp
  next
    assume "[] \<in> A \<and> c # w \<in> B"
    then have "[] @ (c # w) \<in> langSeq A B" unfolding langSeq_def by blast
    then show ?thesis by simp
  qed
qed

lemma langStar_cons_split:
  "x \<in> langStar A \<Longrightarrow> x = c # w \<Longrightarrow>
   \<exists>u v. w = u @ v \<and> c # u \<in> A \<and> v \<in> langStar A"
proof (induction arbitrary: w rule: langStar.induct)
  case langStar_empty
  then show ?case by simp
next
  case (langStar_more u v)
  show ?case
  proof (cases u)
    case Nil
    with langStar_more show ?thesis by simp
  next
    case (Cons a u')
    with langStar_more.prems langStar_more.hyps show ?thesis by auto
  qed
qed

lemma cons_in_langStar:
  "c # w \<in> langStar A \<longleftrightarrow> (\<exists>u v. w = u @ v \<and> c # u \<in> A \<and> v \<in> langStar A)"
proof
  assume "c # w \<in> langStar A"
  then show "\<exists>u v. w = u @ v \<and> c # u \<in> A \<and> v \<in> langStar A"
    by (rule langStar_cons_split) simp
next
  assume "\<exists>u v. w = u @ v \<and> c # u \<in> A \<and> v \<in> langStar A"
  then obtain u v where "w = u @ v" "c # u \<in> A" "v \<in> langStar A" by blast
  then show "c # w \<in> langStar A"
    using langStar_more [of "c # u" A v] by simp
qed

lemma in_langSeq_deriv:
  "(\<And>u. u \<in> D \<longleftrightarrow> c # u \<in> A) \<Longrightarrow>
   w \<in> langSeq D B \<longleftrightarrow> (\<exists>u v. w = u @ v \<and> c # u \<in> A \<and> v \<in> B)"
  by (auto simp: langSeq_def)

lemma lang_deriv: "w \<in> lang (deriv c r) \<longleftrightarrow> c # w \<in> lang r"
proof (induction r arbitrary: w)
  case (Seq r s)
  have "w \<in> langSeq (lang (deriv c r)) (lang s) \<longleftrightarrow>
        (\<exists>u v. w = u @ v \<and> c # u \<in> lang r \<and> v \<in> lang s)"
    by (rule in_langSeq_deriv) (rule Seq.IH)
  then show ?case
    using Seq.IH(2) by (simp add: cons_in_langSeq nullable_lang)
next
  case (Star r)
  have "w \<in> langSeq (lang (deriv c r)) (langStar (lang r)) \<longleftrightarrow>
        (\<exists>u v. w = u @ v \<and> c # u \<in> lang r \<and> v \<in> langStar (lang r))"
    by (rule in_langSeq_deriv) (rule Star.IH)
  then show ?case
    by (simp add: cons_in_langStar)
qed auto

lemma regexTest_lang: "regexTest r s \<longleftrightarrow> s \<in> lang r"
  unfolding regexTest_def
  by (induction s arbitrary: r) (simp_all add: nullable_lang lang_deriv)



subsection \<open>The shape of a valid phone\<close>

lemma in_lang_Cls: "w \<in> lang (Cls C) \<longleftrightarrow> (\<exists>c. w = [c] \<and> inClass C c)"
  by auto

lemma in_langSeq_Cls:
  "w \<in> langSeq (lang (Cls C)) B \<longleftrightarrow> (\<exists>c v. w = c # v \<and> inClass C c \<and> v \<in> B)"
proof
  assume "w \<in> langSeq (lang (Cls C)) B"
  then obtain u v where "w = u @ v" "u \<in> lang (Cls C)" "v \<in> B"
    by (auto simp: langSeq_def)
  then show "\<exists>c v. w = c # v \<and> inClass C c \<and> v \<in> B"
    by auto
next
  assume "\<exists>c v. w = c # v \<and> inClass C c \<and> v \<in> B"
  then obtain c v where cv: "w = c # v" "inClass C c" "v \<in> B" by blast
  then have "[c] \<in> lang (Cls C)" by simp
  with cv(3) have "[c] @ v \<in> langSeq (lang (Cls C)) B"
    unfolding langSeq_def by blast
  with cv(1) show "w \<in> langSeq (lang (Cls C)) B" by simp
qed

lemma langSeq_Opt: "langSeq (lang (Opt r)) B = langSeq (lang r) B \<union> B"
proof -
  have "langSeq (A \<union> {[]}) B = langSeq A B \<union> B" for A
    by (fastforce simp: langSeq_def)
  then show ?thesis by (simp add: Opt_def)
qed

lemma lang_Upto_Suc:
  "lang (Upto r (Suc n)) = langSeq (lang r) (lang (Upto r n)) \<union> {[]}"
  by (simp add: Opt_def)

lemma in_lang_Upto_Cls:
  "w \<in> lang (Upto (Cls C) n) \<longleftrightarrow> length w \<le> n \<and> (\<forall>c \<in> set w. inClass C c)"
proof (induction n arbitrary: w)
  case 0
  then show ?case by auto
next
  case (Suc n)
  show ?case
  proof (cases w)
    case Nil
    then show ?thesis by (simp add: lang_Upto_Suc del: Upto.simps)
  next
    case (Cons a v)
    with Suc [of v] show ?thesis
      unfolding lang_Upto_Suc Un_iff in_langSeq_Cls by auto
  qed
qed

lemma in_langSeq_Opt_Cls:
  "w \<in> langSeq (lang (Opt (Cls C))) B \<longleftrightarrow>
   w \<in> B \<or> (\<exists>c v. w = c # v \<and> inClass C c \<and> v \<in> B)"
  unfolding langSeq_Opt Un_iff in_langSeq_Cls by blast

lemma in_lang_Cls_Upto:
  "v \<in> langSeq (lang (Cls C)) (lang (Upto (Cls D) n)) \<longleftrightarrow>
   (\<exists>d ds. v = d # ds \<and> inClass C d \<and> list_all (inClass D) ds \<and> length ds \<le> n)"
  unfolding in_langSeq_Cls in_lang_Upto_Cls list_all_iff by blast

lemma in_lang_Opt_Cls_Upto:
  "s \<in> lang (Seq (Opt (Cls P)) (Seq (Cls C) (Upto (Cls D) n))) \<longleftrightarrow>
   (\<exists>d ds. (s = d # ds \<or> (\<exists>p. inClass P p \<and> s = p # d # ds)) \<and>
      inClass C d \<and> list_all (inClass D) ds \<and> length ds \<le> n)"
  unfolding lang.simps(5) in_langSeq_Opt_Cls in_lang_Cls_Upto by blast

lemma optional_prefix_shape:
  assumes "\<not> N p"
  shows "(\<exists>d ds. (s = d # ds \<or> (\<exists>q. q = p \<and> s = q # d # ds)) \<and> N d \<and> Q ds) \<longleftrightarrow>
         (case (case s of [] \<Rightarrow> [] | c # cs \<Rightarrow> if c = p then cs else s) of
            [] \<Rightarrow> False
          | d # ds \<Rightarrow> N d \<and> Q ds)"
  using assms by (cases s) (auto split: list.splits)

lemma inClass_OneOf: "inClass (OneOf cs) = (\<lambda>c. c \<in> set cs)"
  by (rule ext) simp

lemma phoneRegex_shape: "regexTest phoneRegex s \<longleftrightarrow> phoneShape s"
proof -
  have one: "(c \<in> set ''+'') = (c = CHR ''+'')" for c
    by simp
  have "\<not> (CHR ''+'' \<in> set ''123456789'')"
    by simp
  note shape = optional_prefix_shape [of "\<lambda>d. d \<in> set ''123456789''" "CHR ''+''" s
      "\<lambda>ds. list_all (\<lambda>x. x \<in> set digitChars) ds \<and> length ds \<le> 15", OF this]
  have "regexTest phoneRegex s \<longleftrightarrow>
      (\<exists>d ds. (s = d # ds \<or> (\<exists>q. q = CHR ''+'' \<and> s = q # d # ds)) \<and>
         d \<in> set ''123456789'' \<and>
         list_all (\<lambda>x. x \<in> set digitChars) ds \<and> length ds \<le> 15)"
    by (simp only: regexTest_lang phoneRegex_def in_lang_Opt_Cls_Upto inClass_OneOf one)
  also note shape
  finally show ?thesis
    by (simp only: phoneShape_def)
qed

subsection \<open>The shape of a valid email\<close>

lemma in_langSeq: "w \<in> langSeq A B \<longleftrightarrow> (\<exists>u v. w = u @ v \<and> u \<in> A \<and> v \<in> B)"
  by (auto simp: langSeq_def)

lemma langStar_Cls_all:
  "w \<in> langStar (lang (Cls C)) \<Longrightarrow> \<forall>c \<in> set w. inClass C c"
  by (induction rule: langStar.induct) auto

lemma all_langStar_Cls:
  "\<forall>c \<in> set w. inClass C c \<Longrightarrow> w \<in> langStar (lang (Cls C))"
proof (induction w)
  case Nil
  show ?case by (rule langStar_empty)
next
  case (Cons a w)
  then have "[a] \<in> lang (Cls C)" and "w \<in> langStar (lang (Cls C))"
    by simp_all
  then have "[a] @ w \<in> langStar (lang (Cls C))"
    by (rule langStar_more)
  then show ?case by simp
qed

lemma in_langStar_Cls:
  "w \<in> langStar (lang (Cls C)) \<longleftrightarrow> (\<forall>c \<in> set w. inClass C c)"
  using langStar_Cls_all all_langStar_Cls by blast

lemma in_lang_Plus_Cls:
  "w \<in> lang (Plus (Cls C)) \<longleftrightarrow> w \<noteq> [] \<and> (\<forall>c \<in> set w. inClass C c)"
proof -
  have "w \<in> lang (Plus (Cls C)) \<longleftrightarrow>
        w \<in> langSeq (lang (Cls C)) (langStar (lang (Cls C)))"
    by (simp only: Plus_def lang.simps(5,6))
  also have "\<dots> \<longleftrightarrow> (\<exists>c v. w = c # v \<and> inClass C c \<and> (\<forall>x \<in> set v. inClass C x))"
    by (simp only: in_langSeq_Cls in_langStar_Cls)
  also have "\<dots> \<longleftrightarrow> w \<noteq> [] \<and> (\<forall>c \<in> set w. inClass C c)"
    by (cases w) auto
  finally show ?thesis .
qed

lemma in_lang_local_at_domain:
  "s \<in> lang (Seq (Plus (Cls C)) (Seq (Cls (OneOf [x]))
          (Seq (Plus (Cls C)) (Seq (Cls (OneOf [y])) (Plus (Cls C)))))) \<longleftrightarrow>
   (\<exists>l a b. s = l @ [x] @ a @ [y] @ b \<and> l \<noteq> [] \<and> a \<noteq> [] \<and> b \<noteq> [] \<and>
      (\<forall>c \<in> set l \<union> set a \<union> set b. inClass C c))"
proof -
  let ?ok = "\<lambda>w. w \<noteq> [] \<and> (\<forall>c \<in> set w. inClass C c)"
  have one: "inClass (OneOf [z]) c \<longleftrightarrow> c = z" for c z :: char by auto
  have "s \<in> lang (Seq (Plus (Cls C)) (Seq (Cls (OneOf [x]))
          (Seq (Plus (Cls C)) (Seq (Cls (OneOf [y])) (Plus (Cls C)))))) \<longleftrightarrow>
      (\<exists>l r. s = l @ r \<and> ?ok l \<and>
         (\<exists>c v. r = c # v \<and> c = x \<and>
            (\<exists>a t. v = a @ t \<and> ?ok a \<and>
               (\<exists>e b. t = e # b \<and> e = y \<and> ?ok b))))"
    unfolding lang.simps(5)
    by (simp only: in_langSeq [of _ "lang (Plus _)"] in_langSeq_Cls in_lang_Plus_Cls one)
  also have "\<dots> \<longleftrightarrow> (\<exists>l a b. s = l @ [x] @ a @ [y] @ b \<and> ?ok l \<and> ?ok a \<and> ?ok b)"
    by (simp only: append_Cons append_Nil) blast
  also have "\<dots> \<longleftrightarrow> (\<exists>l a b. s = l @ [x] @ a @ [y] @ b \<and> l \<noteq> [] \<and> a \<noteq> [] \<and> b \<noteq> [] \<and>
      (\<forall>c \<in> set l \<union> set a \<union> set b. inClass C c))"
    by (simp only: ball_Un) blast
  finally show ?thesis .
qed

lemma emailRegex_shape:
  "regexTest emailRegex s \<longleftrightarrow>
   (\<exists>l a b. s = l @ ''@'' @ a @ ''.'' @ b \<and> l \<noteq> [] \<and> a \<noteq> [] \<and> b \<noteq> [] \<and>
      (\<forall>c \<in> set l \<union> set a \<union> set b. c \<notin> set (whiteSpace @ ''@'')))"
  by (simp only: regexTest_lang emailRegex_def in_lang_local_at_domain inClass.simps)

subsection \<open>The violations reported\<close>

lemma trim_empty: "trim [] = []"
  by (simp add: trim_def)

lemma emailRegex_empty: "\<not> regexTest emailRegex []"
  by (simp add: regexTest_def emailRegex_def Plus_def)

lemma phoneShape_empty: "\<not> phoneShape (stripPhone [])"
  by (simp add: phoneShape_def stripPhone_def)

lemma msg_distinct:
  "distinct [firstNameMsg, lastNameMsg, emailMsg, phoneMsg, passwordMsg]"
  by (simp add: firstNameMsg_def lastNameMsg_def emailMsg_def phoneMsg_def passwordMsg_def)

lemma validateUserData_errors:
  "errors (validateUserData d) =
     (if length (trim (ud_firstName d)) < 2 then [firstNameMsg] else []) @
     (if length (trim (ud_lastName d)) < 2 then [lastNameMsg] else []) @
     (if regexTest emailRegex (ud_email d) then [] else [emailMsg]) @
     (if phoneShape (stripPhone (ud_phone d)) then [] else [phoneMsg]) @
     (if length (ud_password d) < 8 then [passwordMsg] else [])"
proof -
  have n: "(s = [] \<or> length (trim s) < 2) \<longleftrightarrow> length (trim s) < 2" for s
    using trim_empty by auto
  have e: "(s = [] \<or> \<not> regexTest emailRegex s) \<longleftrightarrow> \<not> regexTest emailRegex s" for s
    using emailRegex_empty by auto
  have p: "(s = [] \<or> \<not> regexTest phoneRegex (stripPhone s)) \<longleftrightarrow>
           \<not> phoneShape (stripPhone s)" for s
    using phoneShape_empty by (auto simp: phoneRegex_shape)
  have w: "(s = [] \<or> length s < 8) \<longleftrightarrow> length s < 8" for s :: string
    by auto
  show ?thesis
    by (simp add: validateUserData_def Let_def n e p w)
qed

lemma validateUserData_isValid:
  "isValid (validateUserData d) \<longleftrightarrow> errors (validateUserData d) = []"
  by (simp add: validateUserData_def Let_def)

lemmas validate_eval = trim_def stripPhone_def phoneShape_def whiteSpace_def digitChars_def

text \<open>
  Claim C7, amended. \<open>validateUserData\<close> depends on its argument alone (it takes no
  collection). It reports the first-name or last-name message iff the name has fewer
  than 2 characters after trimming; the email message iff the email does not match the
  address pattern; the phone message iff the phone, after white space, dashes and
  parentheses are removed, is not an optional plus, one digit from 1 to 9 and at most
  fifteen further digits; the password message iff the password has fewer than 8
  characters. The messages come in that order, and \<open>isValid\<close> holds iff there is
  none.
\<close>

theorem validateUserData_report:
  "errors (validateUserData d) =
     (if length (trim (ud_firstName d)) < 2 then [firstNameMsg] else []) @
     (if length (trim (ud_lastName d)) < 2 then [lastNameMsg] else []) @
     (if regexTest emailRegex (ud_email d) then [] else [emailMsg]) @
     (if phoneShape (stripPhone (ud_phone d)) then [] else [phoneMsg]) @
     (if length (ud_password d) < 8 then [passwordMsg] else []) \<and>
   (firstNameMsg \<in> set (errors (validateUserData d)) \<longleftrightarrow>
      length (trim (ud_firstName d)) < 2) \<and>
   (lastNameMsg \<in> set (errors (validateUserData d)) \<longleftrightarrow>
      length (trim (ud_lastName d)) < 2) \<and>
   (emailMsg \<in> set (errors (validateUserData d)) \<longleftrightarrow>
      \<not> regexTest emailRegex (ud_email d)) \<and>
   (phoneMsg \<in> set (errors (validateUserData d)) \<longleftrightarrow>
      \<not> phoneShape (stripPhone (ud_phone d))) \<and>
   (passwordMsg \<in> set (errors (validateUserData d)) \<longleftrightarrow>
      length (ud_password d) < 8) \<and>
   (isValid (validateUserData d) \<longleftrightarrow> errors (validateUserData d) = [])"
  using msg_distinct validateUserData_isValid [of d]
  by (auto simp: validateUserData_errors)

theorem validateUserData_report_witness:
  "errors (validateUserData aliceData) = [] \<and> isValid (validateUserData aliceData) \<and>
   errors (validateUserData
     \<lparr> ud_firstName = '' A '', ud_lastName = ''Wilson'', ud_email = ''alice@x'',
       ud_phone = ''(555) 666-7777'', ud_password = ''short'' \<rparr>) =
     [firstNameMsg, emailMsg, passwordMsg]"
proof -
  let ?bad = "\<lparr> ud_firstName = '' A '', ud_lastName = ''Wilson'', ud_email = ''alice@x'',
       ud_phone = ''(555) 666-7777'', ud_password = ''short'' \<rparr>"
  have e1: "regexTest emailRegex ''Alice@X.com''"
    by (simp add: regexTest_def emailRegex_def Plus_def whiteSpace_def)
  have e2: "\<not> regexTest emailRegex ''alice@x''"
    by (simp add: regexTest_def emailRegex_def Plus_def whiteSpace_def)
  have p1: "phoneShape (stripPhone ''+15556667777'')"
    by (simp add: validate_eval)
  have p2: "phoneShape (stripPhone ''(555) 666-7777'')"
    by (simp add: validate_eval)
  have t: "trim ''Alice'' = ''Alice''" "trim ''Wilson'' = ''Wilson''" "trim '' A '' = ''A''"
    by (simp_all add: trim_def whiteSpace_def)
  from validateUserData_report [of aliceData]
  have a: "errors (validateUserData aliceData) = []"
    by (simp add: aliceData_def e1 p1 t)
  from validateUserData_report [of aliceData] a
  have b: "isValid (validateUserData aliceData)" by simp
  from validateUserData_report [of ?bad]
  have c: "errors (validateUserData ?bad) = [firstNameMsg, emailMsg, passwordMsg]"
    by (simp add: e2 p2 t)
  from a b c show ?thesis by simp
qed

text \<open>
  The phone of the second seeded record is digits after a leading plus, and
  \<open>validateUserData\<close> reports it: its first digit is 0.
\<close>

theorem validateUserData_phone_counterexample:
  "specPhoneOk (ud_phone janeData) \<and>
   phoneMsg \<in> set (errors (validateUserData janeData)) \<and>
   \<not> isValid (validateUserData janeData)"
proof -
  have s: "specPhoneOk (ud_phone janeData)"
    by (simp add: specPhoneOk_def janeData_def stripPhone_def whiteSpace_def digitChars_def)
  have p: "\<not> phoneShape (stripPhone (ud_phone janeData))"
    by (simp add: janeData_def validate_eval)
  then have m: "phoneMsg \<in> set (errors (validateUserData janeData))"
    by (simp add: validateUserData_errors)
  then have "errors (validateUserData janeData) \<noteq> []" by auto
  then have "\<not> isValid (validateUserData janeData)"
    by (simp add: validateUserData_isValid)
  with s m show ?thesis by simp
qed

end
